theory Spec2Isabelle
  imports Complex_Main "HOL-Library.Sublist" "HOL-Library.Multiset"
begin

section \<open>Python values used by the scrapers\<close>

subsection \<open>Exceptions\<close>

text \<open>
  The exceptions the modelled code can raise. A function that can raise returns
  \<open>py_error + 'a\<close>, with \<open>Inl\<close> for the exception.
\<close>

datatype py_error = KeyError | AttributeError | TypeError | ValueError | OverflowError | OSError

subsection \<open>Strings\<close>

text \<open>
  A Python \<^verbatim>\<open>str\<close> is a sequence of code points. The model is \<^typ>\<open>string\<close>, each
  \<^typ>\<open>char\<close> read as the code point of the same number (the Latin-1 range, which
  contains ASCII); the character classes below are Python's on that range.
\<close>

definition codepoint :: "char \<Rightarrow> nat" where
  "codepoint c = of_char c"

text \<open>\<^verbatim>\<open>str.lower\<close>, one character at a time.\<close>

definition lower_char :: "char \<Rightarrow> char" where
  "lower_char c =
     (if (65 \<le> codepoint c \<and> codepoint c \<le> 90) \<or> (192 \<le> codepoint c \<and> codepoint c \<le> 222 \<and> codepoint c \<noteq> 215)
      then char_of (codepoint c + 32) else c)"

definition lower :: "string \<Rightarrow> string" where
  "lower s = map lower_char s"

text \<open>\<^verbatim>\<open>str.isspace\<close>: tab to carriage return, the four separators, space, NEL and the
  no-break space.\<close>

definition isspace :: "char \<Rightarrow> bool" where
  "isspace c = ((9 \<le> codepoint c \<and> codepoint c \<le> 13) \<or> (28 \<le> codepoint c \<and> codepoint c \<le> 32)
                \<or> codepoint c = 133 \<or> codepoint c = 160)"

text \<open>The decimal digits: \<^verbatim>\<open>\d\<close> of the \<^verbatim>\<open>re\<close> module and the digits \<^verbatim>\<open>int\<close> and
  \<^verbatim>\<open>float\<close> read.\<close>

definition isdecimal :: "char \<Rightarrow> bool" where
  "isdecimal c = (48 \<le> codepoint c \<and> codepoint c \<le> 57)"

text \<open>\<^verbatim>\<open>str.isalnum\<close>: letters, digits and the numeric characters of the range.\<close>

definition isalnum :: "char \<Rightarrow> bool" where
  "isalnum c =
     (isdecimal c \<or> (65 \<le> codepoint c \<and> codepoint c \<le> 90) \<or> (97 \<le> codepoint c \<and> codepoint c \<le> 122)
      \<or> codepoint c \<in> {170, 178, 179, 181, 185, 186, 188, 189, 190}
      \<or> (192 \<le> codepoint c \<and> codepoint c \<noteq> 215 \<and> codepoint c \<noteq> 247))"

text \<open>\<^verbatim>\<open>str.strip()\<close> removes the white space at both ends.\<close>

definition strip :: "string \<Rightarrow> string" where
  "strip s = rev (dropWhile isspace (rev (dropWhile isspace s)))"

text \<open>\<^verbatim>\<open>str.split()\<close> cuts at runs of white space and returns the words between them;
  \<open>cur\<close> is the word being read.\<close>

fun split_words :: "string \<Rightarrow> string \<Rightarrow> string list" where
  "split_words cur [] = (if cur = [] then [] else [cur])"
| "split_words cur (c # cs) =
     (if isspace c then (if cur = [] then split_words [] cs else cur # split_words [] cs)
      else split_words (cur @ [c]) cs)"

definition py_split :: "string \<Rightarrow> string list" where
  "py_split s = split_words [] s"

text \<open>\<^verbatim>\<open>sep.join(words)\<close>.\<close>

fun join :: "string \<Rightarrow> string list \<Rightarrow> string" where
  "join sep [] = []"
| "join sep [w] = w"
| "join sep (w # ws) = w @ sep @ join sep ws"

text \<open>\<^verbatim>\<open>s.replace(old, new)\<close> for one-character \<open>old\<close> and \<open>new\<close>.\<close>

definition replace :: "char \<Rightarrow> char \<Rightarrow> string \<Rightarrow> string" where
  "replace old new s = map (\<lambda>c. if c = old then new else c) s"

text \<open>\<^verbatim>\<open>s.startswith(p)\<close> is \<^term>\<open>prefix p s\<close>; \<^verbatim>\<open>w in s\<close> for strings is
  \<^term>\<open>sublist w s\<close>, the contiguous occurrence.\<close>

text \<open>The value of a string of decimal digits, and \<^verbatim>\<open>str(n)\<close> for an integer.\<close>

definition digit_val :: "char \<Rightarrow> nat" where
  "digit_val c = codepoint c - 48"

definition nat_of_digits :: "string \<Rightarrow> nat" where
  "nat_of_digits ds = foldl (\<lambda>n c. 10 * n + digit_val c) 0 ds"

fun digits_of :: "nat \<Rightarrow> string" where
  "digits_of n = (if n < 10 then [char_of (48 + n)] else digits_of (n div 10) @ [char_of (48 + n mod 10)])"

definition str_int :: "int \<Rightarrow> string" where
  "str_int i = (if i < 0 then CHR ''-'' # digits_of (nat (- i)) else digits_of (nat i))"

text \<open>
  \<^verbatim>\<open>int(s)\<close> for a string of decimal digits. CPython refuses a string of more than
  4300 digits (\<^verbatim>\<open>sys.int_info.default_max_str_digits\<close>) with a ValueError.
\<close>

definition int_max_str_digits :: nat where
  "int_max_str_digits = 4300"

definition int_of_digits :: "string \<Rightarrow> py_error + int" where
  "int_of_digits ds =
     (if int_max_str_digits < length ds then Inl ValueError else Inr (int (nat_of_digits ds)))"

subsection \<open>Floats\<close>

text \<open>
  A Python \<^verbatim>\<open>float\<close> is an IEEE 754 binary64 number. The model keeps the exact value
  of a finite float as a rational and has the two infinities; NaN never arises in the
  modelled code and the two zeros are identified, as \<^verbatim>\<open>==\<close> and the comparisons
  used by \<^verbatim>\<open>min\<close>, \<^verbatim>\<open>max\<close> and \<^verbatim>\<open>sort\<close> identify them.
\<close>

datatype pyfloat = NegInf | Finite rat | PosInf

instantiation pyfloat :: linorder
begin

fun less_eq_pyfloat :: "pyfloat \<Rightarrow> pyfloat \<Rightarrow> bool" where
  "less_eq_pyfloat NegInf _ = True"
| "less_eq_pyfloat (Finite a) NegInf = False"
| "less_eq_pyfloat (Finite a) (Finite b) = (a \<le> b)"
| "less_eq_pyfloat (Finite a) PosInf = True"
| "less_eq_pyfloat PosInf PosInf = True"
| "less_eq_pyfloat PosInf _ = False"

definition less_pyfloat :: "pyfloat \<Rightarrow> pyfloat \<Rightarrow> bool" where
  "less_pyfloat x y = (x \<le> y \<and> \<not> y \<le> x)"

instance
proof
  fix x y z :: pyfloat
  show "(x < y) = (x \<le> y \<and> \<not> y \<le> x)" by (simp add: less_pyfloat_def)
  show "x \<le> x" by (cases x) simp_all
  show "x \<le> y \<Longrightarrow> y \<le> z \<Longrightarrow> x \<le> z" by (cases x; cases y; cases z) simp_all
  show "x \<le> y \<Longrightarrow> y \<le> x \<Longrightarrow> x = y" by (cases x; cases y) simp_all
  show "x \<le> y \<or> y \<le> x" by (cases x; cases y) auto
qed

end

text \<open>
  Every float operation returns the exact result rounded to the nearest binary64 number,
  ties to the number with an even significand; CPython's conversion of a decimal string
  and its division of two integers are correctly rounded in the same way. A number has
  53 significant bits and a binary exponent of at least \<open>-1022\<close>; a result that rounds
  to \<open>2^1024\<close> or more is an infinity.
\<close>

fun bitlen :: "nat \<Rightarrow> nat" where
  "bitlen n = (if n = 0 then 0 else Suc (bitlen (n div 2)))"

declare bitlen.simps [simp del]

definition pow2 :: "int \<Rightarrow> rat" where
  "pow2 k = (if 0 \<le> k then 2 ^ nat k else 1 / 2 ^ nat (- k))"

text \<open>The binary exponent of a positive rational: \<open>pow2 (ilog2 x) \<le> x < pow2 (ilog2 x + 1)\<close>.\<close>

definition ilog2 :: "rat \<Rightarrow> int" where
  "ilog2 x = (if 1 \<le> x then int (bitlen (nat \<lfloor>x\<rfloor>)) - 1
              else - int (bitlen (nat (\<lceil>1 / x\<rceil> - 1))))"

definition round_half_even :: "rat \<Rightarrow> int" where
  "round_half_even x =
     (let f = \<lfloor>x\<rfloor>; d = x - of_int f in
      if d < 1 / 2 then f else if 1 / 2 < d then f + 1 else if even f then f else f + 1)"

definition b64_round :: "rat \<Rightarrow> rat" where
  "b64_round x =
     (if x = 0 then 0
      else let e = max (ilog2 \<bar>x\<bar>) (- 1022); q = pow2 (e - 52)
           in sgn x * of_int (round_half_even (\<bar>x\<bar> / q)) * q)"

definition b64 :: "rat \<Rightarrow> pyfloat" where
  "b64 x = (let v = b64_round x in
            if pow2 1024 \<le> v then PosInf else if v \<le> - pow2 1024 then NegInf else Finite v)"

text \<open>\<^verbatim>\<open>float(s)\<close> for a string \<open>digits\<close> or \<open>digits.digits\<close>, the only strings the
  parser passes to it. It never raises: too large a number is \<^verbatim>\<open>inf\<close>.\<close>

definition float_of_decimal :: "string \<Rightarrow> pyfloat" where
  "float_of_decimal s =
     (let ip = takeWhile isdecimal s; fp = drop (Suc (length ip)) s
      in b64 (of_nat (nat_of_digits ip) + of_nat (nat_of_digits fp) / 10 ^ length fp))"

text \<open>\<^verbatim>\<open>x * c\<close> for a float \<open>x\<close> and a positive finite float \<open>c\<close>.\<close>

fun float_mul :: "pyfloat \<Rightarrow> rat \<Rightarrow> pyfloat" where
  "float_mul (Finite x) c = b64 (x * c)"
| "float_mul PosInf c = PosInf"
| "float_mul NegInf c = NegInf"

text \<open>\<^verbatim>\<open>x / c\<close> for a float \<open>x\<close> and a positive finite float \<open>c\<close>.\<close>

fun float_div :: "pyfloat \<Rightarrow> rat \<Rightarrow> pyfloat" where
  "float_div (Finite x) c = b64 (x / c)"
| "float_div PosInf c = PosInf"
| "float_div NegInf c = NegInf"

text \<open>\<^verbatim>\<open>int(x)\<close> for a float truncates towards zero and raises on an infinity.\<close>

definition trunc_int :: "rat \<Rightarrow> int" where
  "trunc_int x = (if 0 \<le> x then \<lfloor>x\<rfloor> else \<lceil>x\<rceil>)"

fun int_of_float :: "pyfloat \<Rightarrow> py_error + int" where
  "int_of_float (Finite x) = Inr (trunc_int x)"
| "int_of_float PosInf = Inl OverflowError"
| "int_of_float NegInf = Inl OverflowError"

text \<open>\<^verbatim>\<open>float(i)\<close> for an integer raises when the integer is too large.\<close>

definition float_of_int :: "int \<Rightarrow> py_error + pyfloat" where
  "float_of_int i = (case b64 (of_int i) of Finite v \<Rightarrow> Inr (Finite v) | _ \<Rightarrow> Inl OverflowError)"

text \<open>\<^verbatim>\<open>a / b\<close> for two integers, \<open>b\<close> positive: the correctly rounded quotient, or an
  OverflowError when it is too large for a float.\<close>

definition int_truediv :: "int \<Rightarrow> int \<Rightarrow> py_error + rat" where
  "int_truediv a b = (case b64 (of_int a / of_int b) of Finite v \<Rightarrow> Inr v | _ \<Rightarrow> Inl OverflowError)"

text \<open>\<^verbatim>\<open>round(x, ndigits)\<close> rounds the exact value of the float to \<open>ndigits\<close> decimals,
  ties to even, and returns the nearest float; an infinity is returned as it is.\<close>

fun py_round :: "pyfloat \<Rightarrow> nat \<Rightarrow> pyfloat" where
  "py_round (Finite x) ndigits = b64 (of_int (round_half_even (x * 10 ^ ndigits)) / 10 ^ ndigits)"
| "py_round PosInf ndigits = PosInf"
| "py_round NegInf ndigits = NegInf"

subsection \<open>The wall clock\<close>

text \<open>
  A clock is the sequence of the readings the process will get, each a datetime in
  microseconds since the epoch. Reading it returns the first and leaves the rest.
\<close>

type_synonym clock = "nat \<Rightarrow> int"

definition read_clock :: "clock \<Rightarrow> int \<times> clock" where
  "read_clock clk = (clk 0, \<lambda>i. clk (Suc i))"

text \<open>
  \<^verbatim>\<open>list.sort(key=..., reverse=True)\<close>: CPython reverses the list, sorts it with a
  stable ascending sort and reverses the result.
\<close>

definition py_sort_reverse :: "('a \<Rightarrow> 'k::linorder) \<Rightarrow> 'a list \<Rightarrow> 'a list" where
  "py_sort_reverse key xs = rev (sort_key key (rev xs))"

section \<open>The search-trends scraper: \<^verbatim>\<open>scrape_google_trends.py\<close>\<close>

definition MIN_SEARCH_VOLUME :: int where
  "MIN_SEARCH_VOLUME = 5000"

text \<open>
  \<^verbatim>\<open>re.search(r'(\d+(?:\.\d+)?)', s)\<close>: the match starts at the first digit, takes the
  whole run of digits and then, when a dot and at least one digit follow, the dot and
  the run after it. The result is group 1, or \<open>None\<close> when the string has no digit.
\<close>

definition search_decimal :: "string \<Rightarrow> string option" where
  "search_decimal s =
     (let t = dropWhile (\<lambda>c. \<not> isdecimal c) s in
      if t = [] then None
      else let ip = takeWhile isdecimal t; r = dropWhile isdecimal t in
           (case r of
              [] \<Rightarrow> Some ip
            | c # r' \<Rightarrow>
                if c = CHR ''.'' \<and> takeWhile isdecimal r' \<noteq> []
                then Some (ip @ [c] @ takeWhile isdecimal r') else Some ip))"

text \<open>\<^verbatim>\<open>re.search(r'(\d+)', s)\<close>: the first run of digits.\<close>

definition search_digits :: "string \<Rightarrow> string option" where
  "search_digits s =
     (let t = dropWhile (\<lambda>c. \<not> isdecimal c) s in
      if t = [] then None else Some (takeWhile isdecimal t))"

text \<open>The argument is a cell of the CSV file: a string, or \<open>None\<close> for the missing cell
  of a short row.\<close>

definition parse_search_volume :: "string option \<Rightarrow> py_error + int" where
  "parse_search_volume volume_str =
     (case volume_str of
        None \<Rightarrow> Inr 0
      | Some v \<Rightarrow>
          if v = [] \<or> strip v = [] then Inr 0
          else let s = lower (strip v) in
            if CHR ''m'' \<in> set s then
              (case search_decimal s of
                 Some number \<Rightarrow> int_of_float (float_mul (float_of_decimal number) 1000000)
               | None \<Rightarrow> Inr 0)
            else if CHR ''k'' \<in> set s then
              (case search_decimal s of
                 Some number \<Rightarrow> int_of_float (float_mul (float_of_decimal number) 1000)
               | None \<Rightarrow> Inr 0)
            else
              (case search_digits s of
                 Some number \<Rightarrow> int_of_digits number
               | None \<Rightarrow> Inr 0))"

text \<open>
  A row of \<^verbatim>\<open>csv.DictReader\<close>: a column that the header does not have is absent from
  the dictionary, a cell that a short row does not have is \<open>None\<close>.
\<close>

datatype cell = Absent | Missing | Cell string

text \<open>\<^verbatim>\<open>row.get(key, default)\<close>.\<close>

fun row_get :: "cell \<Rightarrow> string \<Rightarrow> string option" where
  "row_get Absent dflt = Some dflt"
| "row_get Missing dflt = None"
| "row_get (Cell s) dflt = Some s"

record csv_row =
  Search_volume :: cell
  Trends :: cell

record google_trend =
  g_source :: string
  g_title :: string
  g_url :: string
  g_region :: string
  g_observed_at :: int
  g_raw_metric :: int

text \<open>
  The loop of \<^verbatim>\<open>process_csv_to_schema\<close> over the rows. \<^verbatim>\<open>datetime.now()\<close> is
  evaluated in the dictionary of each row that is kept, so each kept row reads the clock.
  \<^verbatim>\<open>trend_name.replace\<close> raises AttributeError on \<open>None\<close>.
\<close>

fun process_rows :: "string \<Rightarrow> clock \<Rightarrow> csv_row list \<Rightarrow> py_error + google_trend list" where
  "process_rows region clk [] = Inr []"
| "process_rows region clk (row # rest) =
     (case parse_search_volume (row_get (Search_volume row) ''0'') of
        Inl e \<Rightarrow> Inl e
      | Inr search_volume \<Rightarrow>
          if MIN_SEARCH_VOLUME \<le> search_volume then
            (case row_get (Trends row) ''Unknown'' of
               None \<Rightarrow> Inl AttributeError
             | Some trend_name \<Rightarrow>
                 (case process_rows region (snd (read_clock clk)) rest of
                    Inl e \<Rightarrow> Inl e
                  | Inr trends \<Rightarrow>
                      Inr (\<lparr> g_source = ''google_trends'',
                             g_title = trend_name,
                             g_url = ''https://www.google.com/search?q=''
                                      @ replace CHR '' '' CHR ''+'' trend_name,
                             g_region = region,
                             g_observed_at = fst (read_clock clk),
                             g_raw_metric = 1 \<rparr> # trends)))
          else process_rows region clk rest)"

text \<open>
  \<^verbatim>\<open>process_csv_to_schema\<close>: \<open>input_file\<close> is the rows of the file, or \<open>None\<close> when
  the file does not exist. The function returns \<open>None\<close> when the file is missing, when
  anything raised, and when no row was kept.
\<close>

definition process_csv_to_schema ::
  "csv_row list option \<Rightarrow> string \<Rightarrow> clock \<Rightarrow> google_trend list option" where
  "process_csv_to_schema input_file region clk =
     (case input_file of
        None \<Rightarrow> None
      | Some rows \<Rightarrow>
          (case process_rows region clk rows of
             Inl e \<Rightarrow> None
           | Inr trends \<Rightarrow> if trends = [] then None else Some trends))"

section \<open>The encyclopedia scraper: \<^verbatim>\<open>ingest_wikipedia_trends.py\<close>\<close>

subsection \<open>The regular expressions\<close>













subsection \<open>The noise classifier\<close>






subsection \<open>The candidates and their summaries\<close>







record wiki_article =
  a_source :: string
  a_title :: "string option"
  a_url :: string
  a_region :: string
  a_raw_metric :: int
  a_description :: "string option"
  a_thumbnail :: "string option"
  a_lang :: string





subsection \<open>The topics\<close>

definition to_slug :: "string \<Rightarrow> string" where
  "to_slug text = replace CHR ''_'' CHR ''-'' (replace CHR '' '' CHR ''-'' (lower text))"

record wiki_topic =
  t_source :: string
  t_title :: string
  t_slug :: string
  t_url :: string
  t_region :: string
  t_observed_at :: int
  t_raw_metric :: string
  t_score :: rat
  t_description :: "string option"
  t_thumbnail :: "string option"
  t_lang :: string

text \<open>
  The loop of \<^verbatim>\<open>extract_trending_topics\<close> of this script. The division raises OverflowError on a
  count too large for a float, and \<^verbatim>\<open>to_slug\<close> raises AttributeError on a title that
  is \<open>None\<close>.
\<close>

fun wiki_topics :: "int \<Rightarrow> wiki_article list \<Rightarrow> py_error + wiki_topic list" where
  "wiki_topics observed_at [] = Inr []"
| "wiki_topics observed_at (article # rest) =
     (case int_truediv (a_raw_metric article) 1000 of
        Inl e \<Rightarrow> Inl e
      | Inr q \<Rightarrow>
          (case a_title article of
             None \<Rightarrow> Inl AttributeError
           | Some title \<Rightarrow>
               (case wiki_topics observed_at rest of
                  Inl e \<Rightarrow> Inl e
                | Inr topics \<Rightarrow>
                    Inr (\<lparr> t_source = a_source article,
                           t_title = title,
                           t_slug = to_slug title,
                           t_url = a_url article,
                           t_region = a_region article,
                           t_observed_at = observed_at,
                           t_raw_metric = str_int (a_raw_metric article),
                           t_score = min q 1000,
                           t_description = a_description article,
                           t_thumbnail = a_thumbnail article,
                           t_lang = a_lang article \<rparr> # topics))))"

text \<open>\<^verbatim>\<open>extract_trending_topics\<close> of the encyclopedia script reads the clock once, before
  the loop.\<close>

definition wiki_extract_trending_topics ::
  "clock \<Rightarrow> wiki_article list \<Rightarrow> py_error + wiki_topic list" where
  "wiki_extract_trending_topics clk articles = wiki_topics (fst (read_clock clk)) articles"

section \<open>The video scraper: \<^verbatim>\<open>ingest_youtube_trends.py\<close>\<close>

text \<open>
  \<^verbatim>\<open>int(s)\<close> for a string: white space around, a sign, and decimal digits that single
  underscores may separate; anything else, and more than 4300 digits, is a ValueError.
  The white space that \<^verbatim>\<open>int\<close> skips is tab to carriage return, space, NEL and the
  no-break space; unlike \<^verbatim>\<open>str.strip\<close> it does not skip the four separators.
\<close>

definition int_isspace :: "char \<Rightarrow> bool" where
  "int_isspace c = ((9 \<le> codepoint c \<and> codepoint c \<le> 13) \<or> codepoint c = 32
                    \<or> codepoint c = 133 \<or> codepoint c = 160)"

fun digit_groups :: "string \<Rightarrow> bool" where
  "digit_groups [] = False"
| "digit_groups [c] = isdecimal c"
| "digit_groups (c # d # cs) =
     (isdecimal c \<and> (if d = CHR ''_'' then digit_groups cs else digit_groups (d # cs)))"

definition int_of_str :: "string \<Rightarrow> py_error + int" where
  "int_of_str s =
     (let t = rev (dropWhile int_isspace (rev (dropWhile int_isspace s)));
          neg = (t \<noteq> [] \<and> hd t = CHR ''-'');
          body = (if t \<noteq> [] \<and> (hd t = CHR ''-'' \<or> hd t = CHR ''+'') then tl t else t);
          ds = filter (\<lambda>c. c \<noteq> CHR ''_'') body
      in if \<not> digit_groups body \<or> int_max_str_digits < length ds then Inl ValueError
         else Inr (if neg then - int (nat_of_digits ds) else int (nat_of_digits ds)))"

text \<open>A video of the reply, with the fields of its \<^verbatim>\<open>snippet\<close> and \<^verbatim>\<open>statistics\<close>;
  \<open>None\<close> is a key that is missing.\<close>

record video =
  v_id :: "string option"
  v_title :: "string option"
  v_viewCount :: "string option"
  v_channelTitle :: "string option"
  v_publishedAt :: "string option"
  v_description :: "string option"

record video_topic =
  y_source :: string
  y_title :: string
  y_slug :: string
  y_url :: string
  y_region :: string
  y_observed_at :: int
  y_raw_metric :: int
  y_score :: rat
  y_channel :: string
  y_published_at :: string
  y_description :: string

definition opt_default :: "'a option \<Rightarrow> 'a \<Rightarrow> 'a" where
  "opt_default v d = (case v of None \<Rightarrow> d | Some x \<Rightarrow> x)"

definition video_slug :: "string \<Rightarrow> string" where
  "video_slug title =
     join ''-'' (take 5 (py_split (filter (\<lambda>c. isalnum c \<or> isspace c) (lower title))))"

text \<open>
  The body of the loop of \<^verbatim>\<open>extract_trending_topics\<close> for one video: \<open>None\<close> when the
  video is skipped, by \<^verbatim>\<open>continue\<close> on an empty title or by the \<^verbatim>\<open>except\<close> clause
  when the view count is not a number or too large to divide.
\<close>

definition video_topic_of :: "int \<Rightarrow> video \<Rightarrow> video_topic option" where
  "video_topic_of now video =
     (let title = strip (opt_default (v_title video) []) in
      if title = [] then None
      else (case (case v_viewCount video of None \<Rightarrow> Inr 0 | Some s \<Rightarrow> int_of_str s) of
        Inl e \<Rightarrow> None
      | Inr view_count \<Rightarrow>
          (case int_truediv view_count 1000 of
             Inl e \<Rightarrow> None
           | Inr q \<Rightarrow>
               Some \<lparr> y_source = ''youtube'',
                      y_title = title,
                      y_slug = video_slug title,
                      y_url = ''https://www.youtube.com/watch?v='' @ opt_default (v_id video) ''None'',
                      y_region = ''US'',
                      y_observed_at = now,
                      y_raw_metric = view_count,
                      y_score = min q 1000,
                      y_channel = opt_default (v_channelTitle video) [],
                      y_published_at = opt_default (v_publishedAt video) [],
                      y_description = take 200 (opt_default (v_description video) []) \<rparr>)))"

text \<open>\<^verbatim>\<open>extract_trending_topics\<close> of the video script reads the clock once, before the
  loop.\<close>

definition youtube_extract_trending_topics :: "clock \<Rightarrow> video list \<Rightarrow> video_topic list" where
  "youtube_extract_trending_topics clk videos = List.map_filter (video_topic_of (fst (read_clock clk))) videos"

section \<open>The forum scraper: \<^verbatim>\<open>scrape_reddit_enhanced.py\<close>\<close>

text \<open>
  The \<^verbatim>\<open>data\<close> of a child of a listing; \<open>None\<close> is a key that is missing (or, for the
  fields read with \<^verbatim>\<open>or ""\<close>, a null). The score and the number of comments are
  integers. \<open>p_created_utc\<close> is what
  \<^verbatim>\<open>dt.datetime.utcfromtimestamp(d.get("created_utc", time.time()))\<close> evaluates to for
  the post: a datetime, in microseconds since the epoch, or the exception that the
  library raises for a time it cannot represent.
\<close>

record reddit_post =
  p_stickied :: bool
  p_removed_by_category :: "string option"
  p_title :: "string option"
  p_permalink :: "string option"
  p_url_overridden_by_dest :: "string option"
  p_subreddit :: "string option"
  p_created_utc :: "py_error + int"
  p_score :: "int option"
  p_num_comments :: "int option"

record reddit_row =
  r_source :: string
  r_title :: string
  r_url :: string
  r_region :: string
  r_observed_at :: int
  r_raw_metric :: pyfloat
  r_subreddit :: string
  r_score :: int
  r_age_hours :: pyfloat
  r_num_comments :: int
  r_listing_type :: string

text \<open>
  \<^verbatim>\<open>max((now - created_utc).total_seconds() / 3600.0, 0.25)\<close>. The difference of two
  datetimes is a whole number of microseconds; \<^verbatim>\<open>total_seconds\<close> divides it by
  \<open>10^6\<close> as integers. The difference is below \<open>2^59\<close>, so neither division
  overflows and the result is a finite float.
\<close>

definition age_hours :: "int \<Rightarrow> int \<Rightarrow> rat" where
  "age_hours now created_utc =
     max (b64_round (b64_round (of_int (now - created_utc) / 1000000) / 3600)) (1 / 4)"

text \<open>The body of the loop of \<^verbatim>\<open>normalize_items\<close> for one post that is not skipped.\<close>

definition normalize_post :: "int \<Rightarrow> string \<Rightarrow> reddit_post \<Rightarrow> py_error + reddit_row" where
  "normalize_post now kind d =
     (let title = opt_default (p_title d) [];
          permalink = opt_default (p_permalink d) [];
          url = (if permalink \<noteq> [] then ''https://reddit.com'' @ permalink
                 else opt_default (p_url_overridden_by_dest d) []);
          subreddit = opt_default (p_subreddit d) []
      in (case p_created_utc d of
           Inl e \<Rightarrow> Inl e
         | Inr created_utc \<Rightarrow>
             (let age_h = age_hours now created_utc in
              (case float_of_int (opt_default (p_score d) 0) of
                Inl e \<Rightarrow> Inl e
              | Inr score \<Rightarrow>
                  (let comments = opt_default (p_num_comments d) 0;
                       velocity = float_div score age_h
                   in (case int_of_float score of
                        Inl e \<Rightarrow> Inl e
                      | Inr iscore \<Rightarrow>
                          Inr \<lparr> r_source = ''reddit'',
                                r_title = title,
                                r_url = url,
                                r_region = ''GLOBAL'',
                                r_observed_at = now - now mod 1000000,
                                r_raw_metric = py_round velocity 4,
                                r_subreddit = subreddit,
                                r_score = iscore,
                                r_age_hours = py_round (Finite age_h) 2,
                                r_num_comments = comments,
                                r_listing_type = kind \<rparr>))))))"

text \<open>
  The loop of \<^verbatim>\<open>normalize_items\<close> over the children. A child is \<open>None\<close> when it has no
  \<^verbatim>\<open>data\<close> or an empty one. A post that is stickied or removed is skipped. An
  exception leaves the function: the caller drops the whole listing.
\<close>

fun normalize_loop ::
  "int \<Rightarrow> string \<Rightarrow> reddit_post option list \<Rightarrow> py_error + reddit_row list" where
  "normalize_loop now kind [] = Inr []"
| "normalize_loop now kind (child # rest) =
     (case child of
        None \<Rightarrow> normalize_loop now kind rest
      | Some d \<Rightarrow>
          if p_stickied d \<or> opt_default (p_removed_by_category d) [] \<noteq> []
          then normalize_loop now kind rest
          else (case normalize_post now kind d of
                  Inl e \<Rightarrow> Inl e
                | Inr row \<Rightarrow>
                    (case normalize_loop now kind rest of
                       Inl e \<Rightarrow> Inl e
                     | Inr out \<Rightarrow> Inr (row # out))))"

text \<open>\<^verbatim>\<open>normalize_items\<close> reads the clock once, before the loop.\<close>

definition normalize_items ::
  "clock \<Rightarrow> reddit_post option list \<Rightarrow> string \<Rightarrow> py_error + reddit_row list" where
  "normalize_items clk children kind = normalize_loop (fst (read_clock clk)) kind children"

definition row_key :: "reddit_row \<Rightarrow> string \<times> string" where
  "row_key row = (lower (r_title row), lower (r_subreddit row))"

text \<open>The loop of \<^verbatim>\<open>write_combined_csv\<close> over \<^verbatim>\<open>all_rows\<close>, with its two
  variables \<^verbatim>\<open>seen\<close> and \<^verbatim>\<open>unique_rows\<close>.\<close>

fun dedupe_rows ::
  "(string \<times> string) set \<Rightarrow> reddit_row list \<Rightarrow> reddit_row list \<Rightarrow> reddit_row list" where
  "dedupe_rows seen unique_rows [] = unique_rows"
| "dedupe_rows seen unique_rows (row # rest) =
     (let key = row_key row in
      if key \<notin> seen then dedupe_rows (insert key seen) (unique_rows @ [row]) rest
      else dedupe_rows seen unique_rows rest)"

text \<open>The rows that \<^verbatim>\<open>write_combined_csv\<close> hands to the CSV writer, in order.\<close>

definition write_combined_csv :: "reddit_row list \<Rightarrow> reddit_row list" where
  "write_combined_csv all_rows = py_sort_reverse r_raw_metric (dedupe_rows {} [] all_rows)"

section \<open>Facts about the float model\<close>

lemma bitlen_0: "bitlen 0 = 0"
  by (subst bitlen.simps) simp

lemma bitlen_1: "bitlen (Suc 0) = Suc 0"
  by (subst bitlen.simps) (simp add: bitlen_0)

lemma bitlen_pos: "0 < n \<Longrightarrow> 0 < bitlen n"
  by (subst bitlen.simps) simp

lemma bitlen_bounds:
  "0 < n \<Longrightarrow> 2 ^ (bitlen n - 1) \<le> n \<and> n < 2 ^ bitlen n"
proof (induction n rule: bitlen.induct)
  case (1 n)
  show ?case
  proof (cases "n div 2 = 0")
    case True
    with "1.prems" have "n = 1" by presburger
    then show ?thesis by (simp add: bitlen_1)
  next
    case False
    then have pos: "0 < n div 2" by simp
    have n0: "n \<noteq> 0" using "1.prems" by simp
    from "1.IH" [OF n0 pos]
    have lo: "2 ^ (bitlen (n div 2) - 1) \<le> n div 2" and hi: "n div 2 < 2 ^ bitlen (n div 2)"
      by simp_all
    have bl: "bitlen n = Suc (bitlen (n div 2))"
      using n0 by (subst bitlen.simps) simp
    have bpos: "0 < bitlen (n div 2)"
      using pos by (subst bitlen.simps) simp
    then obtain k where k: "bitlen (n div 2) = Suc k" by (cases "bitlen (n div 2)") auto
    from lo k have "2 * 2 ^ k \<le> 2 * (n div 2)" by simp
    also have "\<dots> \<le> n" by presburger
    finally have l: "2 ^ (bitlen n - 1) \<le> n" by (simp add: bl k)
    from hi have "n div 2 + 1 \<le> 2 ^ bitlen (n div 2)" by simp
    then have "2 * (n div 2) + 2 \<le> 2 * 2 ^ bitlen (n div 2)" by simp
    moreover have "n < 2 * (n div 2) + 2" by presburger
    ultimately have "n < 2 ^ bitlen n" by (simp add: bl)
    with l show ?thesis by simp
  qed
qed

lemma pow2_pos: "0 < pow2 k"
  by (simp add: pow2_def)

lemma pow2_nat: "pow2 (int n) = 2 ^ n"
  by (simp add: pow2_def)

lemma pow2_neg_nat: "pow2 (- int n) = 1 / 2 ^ n"
  by (cases "n = 0") (simp_all add: pow2_def)

lemma pow2_add: "pow2 (a + b) = pow2 a * pow2 b"
proof -
  have "pow2 k = 2 powi k" for k
    by (simp add: pow2_def power_int_def field_simps)
  then show ?thesis by (simp add: power_int_add)
qed

lemma pow2_mono: "a \<le> b \<Longrightarrow> pow2 a \<le> pow2 b"
proof -
  assume ab: "a \<le> b"
  have "pow2 b = pow2 a * pow2 (b - a)" using pow2_add [of a "b - a"] by simp
  moreover have "1 \<le> pow2 (b - a)" using ab by (simp add: pow2_def)
  ultimately show ?thesis using pow2_pos [of a] by (simp add: mult_le_cancel_left1)
qed

lemma pow2_Suc: "pow2 (k + 1) = 2 * pow2 k"
  using pow2_add [of k 1] by (simp add: pow2_def)

lemma ilog2_bounds:
  assumes "0 < x"
  shows "pow2 (ilog2 x) \<le> x \<and> x < pow2 (ilog2 x + 1)"
proof (cases "1 \<le> x")
  case True
  define n where "n = nat \<lfloor>x\<rfloor>"
  have npos: "0 < n" using True by (simp add: n_def)
  have nx: "of_nat n \<le> x" "x < of_nat n + 1"
    using True by (simp_all add: n_def) linarith+
  from bitlen_bounds [OF npos] have lo: "2 ^ (bitlen n - 1) \<le> n" and hi: "n < 2 ^ bitlen n"
    by simp_all
  have bpos: "0 < bitlen n" using npos by (subst bitlen.simps) simp
  have il: "ilog2 x = int (bitlen n - 1)" using True bpos by (simp add: ilog2_def n_def)
  have "(2::rat) ^ (bitlen n - 1) \<le> of_nat n"
    using lo by (metis of_nat_le_iff of_nat_numeral of_nat_power)
  then have "(2::rat) ^ (bitlen n - 1) \<le> x" using nx(1) by (rule order_trans)
  then have l: "pow2 (ilog2 x) \<le> x" by (simp only: il pow2_nat)
  have "n + 1 \<le> 2 ^ bitlen n" using hi by simp
  then have "(of_nat (n + 1) :: rat) \<le> of_nat (2 ^ bitlen n)" by (simp only: of_nat_le_iff)
  then have "of_nat n + 1 \<le> (2::rat) ^ bitlen n" by simp
  moreover have "ilog2 x + 1 = int (bitlen n)" using il bpos by simp
  ultimately have "x < pow2 (ilog2 x + 1)" using nx by (simp add: pow2_nat)
  with l show ?thesis by simp
next
  case False
  define y where "y = 1 / x"
  have y1: "1 < y" using False assms by (simp add: y_def)
  define n where "n = nat (\<lceil>y\<rceil> - 1)"
  have npos: "0 < n" using y1 by (simp add: n_def)
  have ny: "of_nat n < y" "y \<le> of_nat n + 1"
    using y1 by (simp_all add: n_def) linarith
  from bitlen_bounds [OF npos] have lo: "2 ^ (bitlen n - 1) \<le> n" and hi: "n < 2 ^ bitlen n"
    by simp_all
  have bpos: "0 < bitlen n" using npos by (subst bitlen.simps) simp
  have il: "ilog2 x = - int (bitlen n)" using False by (simp add: ilog2_def n_def y_def)
  have xy: "x = 1 / y" using assms by (simp add: y_def)
  have "n + 1 \<le> 2 ^ bitlen n" using hi by simp
  then have "(of_nat (n + 1) :: rat) \<le> of_nat (2 ^ bitlen n)" by (simp only: of_nat_le_iff)
  then have "y \<le> (2::rat) ^ bitlen n" using ny by simp
  then have "1 / 2 ^ bitlen n \<le> 1 / y" using y1 by (simp add: frac_le)
  moreover have "pow2 (ilog2 x) = 1 / 2 ^ bitlen n" by (simp only: il pow2_neg_nat)
  ultimately have l: "pow2 (ilog2 x) \<le> x" by (metis xy)
  have "(2::rat) ^ (bitlen n - 1) \<le> of_nat n"
    using lo by (metis of_nat_le_iff of_nat_numeral of_nat_power)
  then have "(2::rat) ^ (bitlen n - 1) < y" using ny(1) by (rule order_le_less_trans)
  then have "1 / y < 1 / 2 ^ (bitlen n - 1)" by (simp add: frac_less2)
  moreover have "pow2 (ilog2 x + 1) = 1 / 2 ^ (bitlen n - 1)"
  proof -
    have "ilog2 x + 1 = - int (bitlen n - 1)" using il bpos by simp
    then show ?thesis by (simp only: pow2_neg_nat)
  qed
  ultimately have "x < pow2 (ilog2 x + 1)" by (metis xy)
  with l show ?thesis by simp
qed

lemma round_half_even_of_int: "round_half_even (of_int n) = n"
  by (simp add: round_half_even_def)

lemma round_half_even_floor:
  "\<lfloor>x\<rfloor> \<le> round_half_even x \<and> round_half_even x \<le> \<lfloor>x\<rfloor> + 1"
  by (simp add: round_half_even_def Let_def)

lemma round_half_even_mono:
  assumes "x \<le> y"
  shows "round_half_even x \<le> round_half_even y"
proof (cases "\<lfloor>x\<rfloor> = \<lfloor>y\<rfloor>")
  case True
  then show ?thesis using assms by (auto simp: round_half_even_def Let_def)
next
  case False
  then have "\<lfloor>x\<rfloor> + 1 \<le> \<lfloor>y\<rfloor>" using assms floor_mono [OF assms] by linarith
  then show ?thesis
    using round_half_even_floor [of x] round_half_even_floor [of y] by linarith
qed

lemma round_half_even_nonneg: "0 \<le> x \<Longrightarrow> 0 \<le> round_half_even x"
  using round_half_even_mono [of 0 x] round_half_even_of_int [of 0] by simp

lemma b64_round_0: "b64_round 0 = 0"
  by (simp add: b64_round_def)

lemma b64_round_pos:
  "0 < x \<Longrightarrow> b64_round x =
     of_int (round_half_even (x / pow2 (max (ilog2 x) (- 1022) - 52)))
       * pow2 (max (ilog2 x) (- 1022) - 52)"
  by (simp add: b64_round_def Let_def)

lemma b64_round_minus: "b64_round (- x) = - b64_round x"
  by (simp add: b64_round_def Let_def sgn_minus)

lemma b64_round_nonneg: "0 \<le> x \<Longrightarrow> 0 \<le> b64_round x"
proof (cases "x = 0")
  case True
  then show ?thesis by (simp add: b64_round_0)
next
  case False
  assume "0 \<le> x"
  with False have x: "0 < x" by simp
  have "0 \<le> x / pow2 (max (ilog2 x) (- 1022) - 52)"
    using x pow2_pos by (simp add: less_imp_le)
  then have "0 \<le> round_half_even (x / pow2 (max (ilog2 x) (- 1022) - 52))"
    by (rule round_half_even_nonneg)
  then show ?thesis
    using pow2_pos [of "max (ilog2 x) (- 1022) - 52"] by (simp add: b64_round_pos [OF x] less_imp_le)
qed

lemma pow2_53: "pow2 (e + 1) = 2 ^ 53 * pow2 (e - 52)"
proof -
  have "pow2 (53 + (e - 52)) = pow2 53 * pow2 (e - 52)" by (rule pow2_add)
  moreover have "53 + (e - 52) = e + 1" by simp
  moreover have "pow2 53 = 2 ^ 53" by (simp add: pow2_def)
  ultimately show ?thesis by metis
qed

lemma pow2_52: "pow2 e = 2 ^ 52 * pow2 (e - 52)"
proof -
  have "pow2 (52 + (e - 52)) = pow2 52 * pow2 (e - 52)" by (rule pow2_add)
  moreover have "52 + (e - 52) = e" by simp
  moreover have "pow2 52 = 2 ^ 52" by (simp add: pow2_def)
  ultimately show ?thesis by metis
qed

lemma b64_round_upper:
  assumes x: "0 < x" and e: "ilog2 x \<le> e" "- 1022 \<le> e"
  shows "b64_round x \<le> pow2 (e + 1)"
proof -
  let ?e = "max (ilog2 x) (- 1022)"
  let ?q = "pow2 (?e - 52)"
  have q: "0 < ?q" by (rule pow2_pos)
  have "x < pow2 (ilog2 x + 1)" using ilog2_bounds [OF x] by simp
  also have "\<dots> \<le> pow2 (?e + 1)" by (rule pow2_mono) simp
  also have "\<dots> = 2 ^ 53 * ?q" by (rule pow2_53)
  finally have "x / ?q \<le> 2 ^ 53" using q by (simp add: pos_divide_le_eq)
  then have "round_half_even (x / ?q) \<le> round_half_even (of_int (2 ^ 53))"
    by (intro round_half_even_mono) simp
  then have "round_half_even (x / ?q) \<le> 2 ^ 53" by (simp only: round_half_even_of_int)
  then have "(of_int (round_half_even (x / ?q)) :: rat) \<le> of_int (2 ^ 53)"
    by (simp only: of_int_le_iff)
  then have "of_int (round_half_even (x / ?q)) * ?q \<le> 2 ^ 53 * ?q"
    using q by (simp add: mult_right_mono)
  then have "b64_round x \<le> pow2 (?e + 1)"
    by (simp only: b64_round_pos [OF x] pow2_53 [of ?e])
  also have "\<dots> \<le> pow2 (e + 1)" using e by (intro pow2_mono) simp
  finally show ?thesis .
qed

lemma b64_round_lower:
  assumes x: "0 < x" and e: "- 1022 \<le> ilog2 x"
  shows "pow2 (ilog2 x) \<le> b64_round x"
proof -
  let ?e = "ilog2 x"
  let ?q = "pow2 (?e - 52)"
  have m: "max (ilog2 x) (- 1022) = ?e" using e by simp
  have q: "0 < ?q" by (rule pow2_pos)
  have "2 ^ 52 * ?q = pow2 ?e" by (rule pow2_52 [symmetric])
  also have "\<dots> \<le> x" using ilog2_bounds [OF x] by simp
  finally have "2 ^ 52 \<le> x / ?q" using q by (simp add: pos_le_divide_eq)
  then have "round_half_even (of_int (2 ^ 52)) \<le> round_half_even (x / ?q)"
    by (intro round_half_even_mono) simp
  then have "2 ^ 52 \<le> round_half_even (x / ?q)" by (simp only: round_half_even_of_int)
  then have "(of_int (2 ^ 52) :: rat) \<le> of_int (round_half_even (x / ?q))"
    by (simp only: of_int_le_iff)
  then have "2 ^ 52 * ?q \<le> of_int (round_half_even (x / ?q)) * ?q"
    using q by (simp add: mult_right_mono)
  then show ?thesis
    by (simp only: b64_round_pos [OF x] m pow2_52 [of ?e])
qed

lemma pow2_less_cancel: "pow2 a < pow2 b \<Longrightarrow> a < b"
  using pow2_mono [of b a] by (cases "a < b") auto


lemma ilog2_ge: "0 < x \<Longrightarrow> pow2 k \<le> x \<Longrightarrow> k \<le> ilog2 x"
proof -
  assume x: "0 < x" and k: "pow2 k \<le> x"
  have "pow2 k < pow2 (ilog2 x + 1)" using ilog2_bounds [OF x] k by simp
  then have "k < ilog2 x + 1" by (rule pow2_less_cancel)
  then show ?thesis by simp
qed



lemma b64_round_mono_pos:
  assumes x: "0 < x" and xy: "x \<le> y"
  shows "b64_round x \<le> b64_round y"
proof -
  have y: "0 < y" using x xy by simp
  let ?ex = "max (ilog2 x) (- 1022)" and ?ey = "max (ilog2 y) (- 1022)"
  have "ilog2 x \<le> ilog2 y"
    using ilog2_bounds [OF x] xy by (intro ilog2_ge [OF y]) simp
  then have le: "?ex \<le> ?ey" by simp
  show ?thesis
  proof (cases "?ex = ?ey")
    case True
    let ?q = "pow2 (?ex - 52)"
    have q: "0 < ?q" by (rule pow2_pos)
    have "x / ?q \<le> y / ?q" using xy q by (simp add: divide_right_mono)
    then have "round_half_even (x / ?q) \<le> round_half_even (y / ?q)"
      by (rule round_half_even_mono)
    then have "(of_int (round_half_even (x / ?q)) :: rat) \<le> of_int (round_half_even (y / ?q))"
      by (simp only: of_int_le_iff)
    then have "of_int (round_half_even (x / ?q)) * ?q \<le> of_int (round_half_even (y / ?q)) * ?q"
      using q by (simp add: mult_right_mono)
    then show ?thesis by (simp only: b64_round_pos [OF x] b64_round_pos [OF y] True [symmetric])
  next
    case False
    from False le have lt: "?ex < ?ey" by (rule order.not_eq_order_implies_strict)
    then have ey: "?ey = ilog2 y" "- 1022 \<le> ilog2 y" by linarith+
    have "b64_round x \<le> pow2 (?ex + 1)" using x by (intro b64_round_upper) simp_all
    also have "\<dots> \<le> pow2 (ilog2 y)" using lt ey by (intro pow2_mono) linarith
    also have "\<dots> \<le> b64_round y" using y ey(2) by (rule b64_round_lower)
    finally show ?thesis .
  qed
qed

lemma b64_round_mono: "x \<le> y \<Longrightarrow> b64_round x \<le> b64_round y"
proof -
  assume xy: "x \<le> y"
  consider "0 < x" | "x \<le> 0" "0 \<le> y" | "y < 0" by linarith
  then show ?thesis
  proof cases
    case 1
    then show ?thesis using xy by (rule b64_round_mono_pos)
  next
    case 2
    have "b64_round x = - b64_round (- x)" using b64_round_minus [of "- x"] by simp
    moreover have "0 \<le> b64_round (- x)" using 2(1) by (intro b64_round_nonneg) simp
    moreover have "0 \<le> b64_round y" using 2(2) by (rule b64_round_nonneg)
    ultimately show ?thesis by simp
  next
    case 3
    then have "b64_round (- y) \<le> b64_round (- x)"
      using xy by (intro b64_round_mono_pos) simp_all
    then show ?thesis by (simp add: b64_round_minus)
  qed
qed

section \<open>Facts about the string functions\<close>














section \<open>The metric parser\<close>























section \<open>Deduplication and ordering\<close>

lemma set_py_sort_reverse: "set (py_sort_reverse key xs) = set xs"
  by (simp add: py_sort_reverse_def)



lemma map_py_sort_reverse_distinct:
  "distinct (map f (py_sort_reverse key xs)) = distinct (map f xs)"
proof -
  have "mset (py_sort_reverse key xs) = mset xs"
    by (simp add: py_sort_reverse_def)
  then have "image_mset f (mset (py_sort_reverse key xs)) = image_mset f (mset xs)"
    by simp
  then have "mset (map f (py_sort_reverse key xs)) = mset (map f xs)"
    by (simp only: mset_map)
  then show ?thesis by (rule mset_eq_imp_distinct_iff)
qed

lemma dedupe_rows_acc:
  "dedupe_rows seen (acc @ acc') rows = acc @ dedupe_rows seen acc' rows"
  by (induction rows arbitrary: seen acc') (simp_all add: Let_def)

lemma dedupe_rows_Nil_acc:
  "dedupe_rows seen acc rows = acc @ dedupe_rows seen [] rows"
  using dedupe_rows_acc [of seen acc "[]" rows] by simp

lemma dedupe_rows_Cons:
  "dedupe_rows seen [] (row # rest) =
     (if row_key row \<notin> seen then row # dedupe_rows (insert (row_key row) seen) [] rest
      else dedupe_rows seen [] rest)"
  using dedupe_rows_Nil_acc [of "insert (row_key row) seen" "[row]" rest]
  by (simp add: Let_def)

declare dedupe_rows.simps(2) [simp del]

lemma dedupe_rows_keys_fresh:
  "r \<in> set (dedupe_rows seen [] rows) \<Longrightarrow> row_key r \<notin> seen"
  by (induction rows arbitrary: seen) (auto simp: dedupe_rows_Cons split: if_splits)

lemma dedupe_rows_distinct:
  "distinct (map row_key (dedupe_rows seen [] rows))"
  by (induction rows arbitrary: seen)
     (auto simp: dedupe_rows_Cons dest: dedupe_rows_keys_fresh)

lemma dedupe_rows_first:
  "r \<in> set (dedupe_rows seen [] rows) \<Longrightarrow>
     List.find (\<lambda>x. row_key x = row_key r) rows = Some r"
proof (induction rows arbitrary: seen)
  case Nil
  then show ?case by simp
next
  case (Cons a rest)
  show ?case
  proof (cases "row_key a \<in> seen")
    case True
    with Cons.prems have r: "r \<in> set (dedupe_rows seen [] rest)"
      by (simp add: dedupe_rows_Cons)
    then have "row_key r \<notin> seen" by (rule dedupe_rows_keys_fresh)
    with True have "row_key a \<noteq> row_key r" by auto
    with Cons.IH [OF r] show ?thesis by simp
  next
    case False
    with Cons.prems have "r = a \<or> r \<in> set (dedupe_rows (insert (row_key a) seen) [] rest)"
      by (simp add: dedupe_rows_Cons)
    then show ?thesis
    proof
      assume "r = a"
      then show ?thesis by simp
    next
      assume r: "r \<in> set (dedupe_rows (insert (row_key a) seen) [] rest)"
      then have "row_key r \<notin> insert (row_key a) seen" by (rule dedupe_rows_keys_fresh)
      then have "row_key a \<noteq> row_key r" by auto
      with Cons.IH [OF r] show ?thesis by simp
    qed
  qed
qed

lemma dedupe_rows_keeps_first:
  "List.find (\<lambda>x. row_key x = k) rows = Some r \<Longrightarrow> k \<notin> seen \<Longrightarrow>
     r \<in> set (dedupe_rows seen [] rows)"
proof (induction rows arbitrary: seen)
  case Nil
  then show ?case by simp
next
  case (Cons a rest)
  show ?case
  proof (cases "row_key a = k")
    case True
    with Cons.prems show ?thesis by (simp add: dedupe_rows_Cons)
  next
    case False
    with Cons.prems have f: "List.find (\<lambda>x. row_key x = k) rest = Some r" by simp
    from False Cons.prems have "k \<notin> insert (row_key a) seen" by auto
    with Cons.IH [OF f] Cons.IH [OF f Cons.prems(2)] show ?thesis
      by (simp add: dedupe_rows_Cons)
  qed
qed


lemma dedupe_rows_keys:
  "row_key ` set (dedupe_rows seen [] rows) = row_key ` set rows - seen"
  by (induction rows arbitrary: seen) (auto simp: dedupe_rows_Cons)

lemma write_combined_csv_row_key:
  "distinct (map row_key (write_combined_csv all_rows))
   \<and> row_key ` set (write_combined_csv all_rows) = row_key ` set all_rows
   \<and> length (write_combined_csv all_rows) = card (row_key ` set all_rows)
   \<and> set (write_combined_csv all_rows)
       = {r. \<exists>k. List.find (\<lambda>x. row_key x = k) all_rows = Some r}"
proof -
  let ?u = "dedupe_rows {} [] all_rows"
  have d: "distinct (map row_key (write_combined_csv all_rows))"
    by (simp add: write_combined_csv_def map_py_sort_reverse_distinct dedupe_rows_distinct)
  have s: "set (write_combined_csv all_rows) = set ?u"
    by (simp add: write_combined_csv_def set_py_sort_reverse)
  have k: "row_key ` set (write_combined_csv all_rows) = row_key ` set all_rows"
    by (simp add: s dedupe_rows_keys)
  have "length (write_combined_csv all_rows) = length (map row_key (write_combined_csv all_rows))"
    by simp
  also have "\<dots> = card (set (map row_key (write_combined_csv all_rows)))"
    using d by (simp only: distinct_card)
  also have "\<dots> = card (row_key ` set all_rows)"
    using k by simp
  finally have l: "length (write_combined_csv all_rows) = card (row_key ` set all_rows)" .
  have "set ?u = {r. \<exists>k. List.find (\<lambda>x. row_key x = k) all_rows = Some r}"
  proof (intro set_eqI iffI)
    fix r assume "r \<in> set ?u"
    then have "List.find (\<lambda>x. row_key x = row_key r) all_rows = Some r"
      by (rule dedupe_rows_first)
    then show "r \<in> {r. \<exists>k. List.find (\<lambda>x. row_key x = k) all_rows = Some r}" by blast
  next
    fix r assume "r \<in> {r. \<exists>k. List.find (\<lambda>x. row_key x = k) all_rows = Some r}"
    then obtain k where "List.find (\<lambda>x. row_key x = k) all_rows = Some r" by blast
    then show "r \<in> set ?u" by (rule dedupe_rows_keeps_first) simp
  qed
  with d k l s show ?thesis by simp
qed

lemma lower_Foo: "lower ''Foo'' = ''foo''" by code_simp
lemma lower_Bar: "lower ''Bar'' = ''bar''" by code_simp
lemma lower_foo: "lower ''foo'' = ''foo''" by code_simp
lemma lower_BAR: "lower ''BAR'' = ''bar''" by code_simp
lemma lower_Baz: "lower ''Baz'' = ''baz''" by code_simp
lemma lower_q: "lower ''q'' = ''q''" by code_simp

lemma write_combined_csv_example:
  "write_combined_csv
     [row\<lparr>r_title := ''Foo'', r_subreddit := ''Bar'', r_raw_metric := Finite 1\<rparr>,
      row\<lparr>r_title := ''foo'', r_subreddit := ''BAR'', r_raw_metric := Finite 5\<rparr>,
      row\<lparr>r_title := ''Baz'', r_subreddit := ''q'', r_raw_metric := Finite 3\<rparr>]
   = [row\<lparr>r_title := ''Baz'', r_subreddit := ''q'', r_raw_metric := Finite 3\<rparr>,
      row\<lparr>r_title := ''Foo'', r_subreddit := ''Bar'', r_raw_metric := Finite 1\<rparr>]"
  by (simp add: write_combined_csv_def dedupe_rows.simps row_key_def py_sort_reverse_def
        lower_Foo lower_Bar lower_foo lower_BAR lower_Baz lower_q)

text \<open>
  Claim C4. The identity key of a forum row is the pair of its lower-cased title and its
  lower-cased subreddit. The rows written by \<^verbatim>\<open>write_combined_csv\<close> hold exactly one
  row for each key of the input: their keys are pairwise distinct and are the keys of the
  input, so there are as many rows as distinct keys. The row kept for a key is the
  earliest input row with that key, whatever its metric (\<open>List.find\<close> returns the first
  match), and every such earliest row is kept: nothing is dropped for another reason.
  On the rows Foo/Bar (metric 1), foo/BAR (metric 5) and Baz/q (metric 3) the second is
  dropped although its metric is higher, and the other two are written.
\<close>

theorem write_combined_csv_first_seen_wins:
  "distinct (map (\<lambda>r. (lower (r_title r), lower (r_subreddit r))) (write_combined_csv all_rows))
   \<and> (\<lambda>r. (lower (r_title r), lower (r_subreddit r))) ` set (write_combined_csv all_rows)
       = (\<lambda>r. (lower (r_title r), lower (r_subreddit r))) ` set all_rows
   \<and> length (write_combined_csv all_rows)
       = card ((\<lambda>r. (lower (r_title r), lower (r_subreddit r))) ` set all_rows)
   \<and> set (write_combined_csv all_rows)
       = {r. \<exists>k. List.find (\<lambda>x. (lower (r_title x), lower (r_subreddit x)) = k) all_rows = Some r}
   \<and> write_combined_csv
        [row\<lparr>r_title := ''Foo'', r_subreddit := ''Bar'', r_raw_metric := Finite 1\<rparr>,
         row\<lparr>r_title := ''foo'', r_subreddit := ''BAR'', r_raw_metric := Finite 5\<rparr>,
         row\<lparr>r_title := ''Baz'', r_subreddit := ''q'', r_raw_metric := Finite 3\<rparr>]
      = [row\<lparr>r_title := ''Baz'', r_subreddit := ''q'', r_raw_metric := Finite 3\<rparr>,
         row\<lparr>r_title := ''Foo'', r_subreddit := ''Bar'', r_raw_metric := Finite 1\<rparr>]"
proof -
  have k: "row_key = (\<lambda>r. (lower (r_title r), lower (r_subreddit r)))"
    by (rule ext) (simp add: row_key_def)
  have "distinct (map (\<lambda>r. (lower (r_title r), lower (r_subreddit r))) (write_combined_csv all_rows))
   \<and> (\<lambda>r. (lower (r_title r), lower (r_subreddit r))) ` set (write_combined_csv all_rows)
       = (\<lambda>r. (lower (r_title r), lower (r_subreddit r))) ` set all_rows
   \<and> length (write_combined_csv all_rows)
       = card ((\<lambda>r. (lower (r_title r), lower (r_subreddit r))) ` set all_rows)
   \<and> set (write_combined_csv all_rows)
       = {r. \<exists>k. List.find (\<lambda>x. (lower (r_title x), lower (r_subreddit x)) = k) all_rows = Some r}"
    using write_combined_csv_row_key [of all_rows] unfolding k .
  with write_combined_csv_example [of row] show ?thesis by blast
qed

section \<open>Ordering of the output\<close>







section \<open>The metric parser on concrete inputs\<close>






lemma b64_zero: "b64 0 = Finite 0"
  using pow2_pos [of 1024] by (simp add: b64_def b64_round_0)

lemma b64_minus: "b64 (- x) = (case b64 x of PosInf \<Rightarrow> NegInf | NegInf \<Rightarrow> PosInf | Finite v \<Rightarrow> Finite (- v))"
  using pow2_pos [of 1024] by (auto simp: b64_def b64_round_minus Let_def)




























end
